theory Spec2Isabelle
  imports Main "HOL-Library.Word" "HOL-Library.Sublist"
begin

unbundle bit_operations_syntax

section \<open>Strings of the server\<close>

text \<open>
  A JavaScript string is a sequence of 16-bit code units. The function \<open>js\<close> writes an
  ASCII literal of the source as such a sequence.
\<close>

type_synonym cu = "16 word"
type_synonym jsstring = "cu list"

definition js :: "string \<Rightarrow> jsstring" where
  "js s = map (\<lambda>c. of_nat (of_char c)) s"

text \<open>The character classes \<open>\w\<close>, \<open>\s\<close> and \<open>[a-fA-F0-9]\<close> of the regular expressions.
  \<open>\s\<close> is ECMAScript's WhiteSpace and LineTerminator, the set that \<open>trim\<close> removes as well.\<close>

definition isWord :: "cu \<Rightarrow> bool" where
  "isWord c \<longleftrightarrow>
     (0x61 \<le> c \<and> c \<le> 0x7A) \<or> (0x41 \<le> c \<and> c \<le> 0x5A) \<or> (0x30 \<le> c \<and> c \<le> 0x39) \<or> c = 0x5F"

definition isSpace :: "cu \<Rightarrow> bool" where
  "isSpace c \<longleftrightarrow>
     (0x09 \<le> c \<and> c \<le> 0x0D) \<or> c = 0x20 \<or> c = 0xA0 \<or> c = 0x1680 \<or>
     (0x2000 \<le> c \<and> c \<le> 0x200A) \<or> c = 0x2028 \<or> c = 0x2029 \<or> c = 0x202F \<or>
     c = 0x205F \<or> c = 0x3000 \<or> c = 0xFEFF"

definition isHexDigit :: "cu \<Rightarrow> bool" where
  "isHexDigit c \<longleftrightarrow>
     (0x61 \<le> c \<and> c \<le> 0x66) \<or> (0x41 \<le> c \<and> c \<le> 0x46) \<or> (0x30 \<le> c \<and> c \<le> 0x39)"

definition backtick :: cu where
  "backtick = 0x60"

definition fence :: jsstring where
  "fence = [backtick, backtick, backtick]"

text \<open>\<open>String.prototype.trim\<close>.\<close>

definition trim :: "jsstring \<Rightarrow> jsstring" where
  "trim s = rev (dropWhile isSpace (rev (dropWhile isSpace s)))"

section \<open>Regular expressions\<close>

text \<open>
  The regular expressions of the source, as syntax trees, and ECMAScript's backtracking
  matcher for them. A matcher state is the code unit before the current position (what
  \<open>\b\<close> looks back at), the input still to be read, and the captures so far. The matcher
  returns the states in which a match of the expression can end, in the order in which
  backtracking tries them: the match that the program sees is the head of the list.
  Quantifiers are greedy; an iteration of \<open>*\<close> or \<open>?\<close> that consumes nothing is rejected and
  the captures inside a quantified atom are reset when an iteration starts, as in the
  language definition.
\<close>

type_synonym captures = "(nat \<times> jsstring) list"
type_synonym mstate = "cu option \<times> jsstring \<times> captures"

datatype regex =
    REmpty
  | RChar cu
  | RClass "cu \<Rightarrow> bool"
  | RSeq regex regex
  | RAlt regex regex
  | RStar regex
  | ROpt regex
  | RGroup nat regex
  | RWordBoundary

definition RPlus :: "regex \<Rightarrow> regex" where
  "RPlus r = RSeq r (RStar r)"

fun RLit :: "jsstring \<Rightarrow> regex" where
  "RLit [] = REmpty"
| "RLit (c # cs) = RSeq (RChar c) (RLit cs)"

fun groups :: "regex \<Rightarrow> nat list" where
  "groups (RSeq r1 r2) = groups r1 @ groups r2"
| "groups (RAlt r1 r2) = groups r1 @ groups r2"
| "groups (RStar r) = groups r"
| "groups (ROpt r) = groups r"
| "groups (RGroup n r) = n # groups r"
| "groups _ = []"

fun clearCaps :: "nat list \<Rightarrow> mstate \<Rightarrow> mstate" where
  "clearCaps ns (p, xs, caps) = (p, xs, filter (\<lambda>(k, _). k \<notin> set ns) caps)"

fun progress :: "mstate \<Rightarrow> mstate \<Rightarrow> bool" where
  "progress (p, xs, caps) (p', ys, caps') \<longleftrightarrow> length ys < length xs"

fun isWordOpt :: "cu option \<Rightarrow> bool" where
  "isWordOpt None = False"
| "isWordOpt (Some c) = isWord c"

fun nextChar :: "jsstring \<Rightarrow> cu option" where
  "nextChar [] = None"
| "nextChar (x # xs) = Some x"

function (sequential) matcher :: "regex \<Rightarrow> mstate \<Rightarrow> mstate list" where
  "matcher REmpty st = [st]"
| "matcher (RChar c) (p, [], caps) = []"
| "matcher (RChar c) (p, x # xs, caps) = (if x = c then [(Some x, xs, caps)] else [])"
| "matcher (RClass P) (p, [], caps) = []"
| "matcher (RClass P) (p, x # xs, caps) = (if P x then [(Some x, xs, caps)] else [])"
| "matcher (RSeq r1 r2) st = concat (map (matcher r2) (matcher r1 st))"
| "matcher (RAlt r1 r2) st = matcher r1 st @ matcher r2 st"
| "matcher (RStar r) st =
     concat (map (matcher (RStar r))
       (filter (progress st) (matcher r (clearCaps (groups r) st)))) @ [st]"
| "matcher (ROpt r) st = filter (progress st) (matcher r (clearCaps (groups r) st)) @ [st]"
| "matcher (RGroup n r) (p, xs, caps) =
     map (\<lambda>(p', ys, caps').
            (p', ys, (n, take (length xs - length ys) xs) # filter (\<lambda>(k, _). k \<noteq> n) caps'))
       (matcher r (p, xs, caps))"
| "matcher RWordBoundary (p, xs, caps) =
     (if isWordOpt p \<noteq> isWordOpt (nextChar xs) then [(p, xs, caps)] else [])"
  by pat_completeness auto
termination
  by (relation "measures [\<lambda>(r, st). size r, \<lambda>(r, (p, xs, caps)). length xs]") auto

text \<open>The match that starts exactly at the current position, if there is one.\<close>

definition matchHere :: "regex \<Rightarrow> cu option \<Rightarrow> jsstring \<Rightarrow> mstate option" where
  "matchHere re p xs = (case matcher re (p, xs, []) of [] \<Rightarrow> None | st # _ \<Rightarrow> Some st)"

text \<open>
  \<open>String.prototype.match\<close> with a regular expression without the \<open>g\<close> flag: the leftmost
  match, as the matched text and its captures, or \<open>None\<close> for \<open>null\<close>.
\<close>

fun regexSearch :: "regex \<Rightarrow> cu option \<Rightarrow> jsstring \<Rightarrow> (jsstring \<times> captures) option" where
  "regexSearch re p [] =
     (case matchHere re p [] of None \<Rightarrow> None | Some (p', ys, caps) \<Rightarrow> Some ([], caps))"
| "regexSearch re p (x # xs) =
     (case matchHere re p (x # xs) of
        Some (p', ys, caps) \<Rightarrow> Some (take (Suc (length xs) - length ys) (x # xs), caps)
      | None \<Rightarrow> regexSearch re (Some x) xs)"

definition stringMatch :: "jsstring \<Rightarrow> regex \<Rightarrow> (jsstring \<times> captures) option" where
  "stringMatch s re = regexSearch re None s"

text \<open>
  \<open>String.prototype.replace\<close> with a regular expression with the \<open>g\<close> flag and a replacement
  string: every match, found from left to right, each search starting where the match
  before it ended (one code unit further after an empty match), is replaced. The
  replacement is taken literally: the replacement strings of this program (the empty
  string and \<open>contract CustomMortgageLoan_<timestamp>\<close>) contain no \<open>$\<close>, the only character
  that \<open>replace\<close> treats specially.
\<close>

function replaceFrom :: "regex \<Rightarrow> jsstring \<Rightarrow> cu option \<Rightarrow> jsstring \<Rightarrow> jsstring" where
  "replaceFrom re repl p [] = (case matchHere re p [] of None \<Rightarrow> [] | Some st \<Rightarrow> repl)"
| "replaceFrom re repl p (x # xs) =
     (case matchHere re p (x # xs) of
        None \<Rightarrow> x # replaceFrom re repl (Some x) xs
      | Some (p', ys, caps) \<Rightarrow>
          if length ys < Suc (length xs) then repl @ replaceFrom re repl p' ys
          else repl @ x # replaceFrom re repl (Some x) xs)"
  by pat_completeness auto
termination
  by (relation "measure (\<lambda>(re, repl, p, xs). length xs)") auto

definition replaceAll :: "jsstring \<Rightarrow> regex \<Rightarrow> jsstring \<Rightarrow> jsstring" where
  "replaceAll s re repl = replaceFrom re repl None s"

section \<open>The fence stripper\<close>

text \<open>The regular expressions \<^verbatim>\<open>/```(\w+)?/g\<close> and \<^verbatim>\<open>/```/g\<close>.\<close>

definition fenceOpenRe :: regex where
  "fenceOpenRe = RSeq (RLit fence) (ROpt (RGroup 1 (RPlus (RClass isWord))))"

definition fenceRe :: regex where
  "fenceRe = RLit fence"

definition stripMarkdownFences :: "jsstring \<Rightarrow> jsstring" where
  "stripMarkdownFences text = trim (replaceAll (replaceAll text fenceOpenRe []) fenceRe [])"


section \<open>The loan record and the prompts\<close>

text \<open>
  \<open>Number::toString\<close> on an integer, as the template literals apply it to the loan amount
  and to \<open>Date.now()\<close>: the decimal digits, with a minus sign for a negative number. (Both
  numbers are integers below \<open>10^21\<close>, where JavaScript prints no exponent.)
\<close>

definition digitChar :: "nat \<Rightarrow> cu" where
  "digitChar d = of_nat (48 + d)"

function decimal :: "nat \<Rightarrow> jsstring" where
  "decimal n = (if n < 10 then [digitChar n] else decimal (n div 10) @ [digitChar (n mod 10)])"
  by pat_completeness auto
termination
  by (relation "measure id") auto

definition numberToString :: "int \<Rightarrow> jsstring" where
  "numberToString i = (if i < 0 then js ''-'' @ decimal (nat (- i)) else decimal (nat i))"

text \<open>
  \<open>JSON.stringify\<close> on objects with string leaves, without indentation: the keys in
  insertion order, every string quoted by \<open>QuoteJSONString\<close> (escapes for the quote, the
  backslash, the control characters and lone surrogates).
\<close>

datatype json = JString jsstring | JObject "(jsstring \<times> json) list"

definition hexDigit :: "cu \<Rightarrow> cu" where
  "hexDigit n = (if n < 10 then 48 + n else 87 + n)"

definition backslash :: cu where
  "backslash = 0x5C"

definition unicodeEscape :: "cu \<Rightarrow> jsstring" where
  "unicodeEscape c =
     backslash # js ''u'' @ [hexDigit (drop_bit 12 c AND 15), hexDigit (drop_bit 8 c AND 15),
                  hexDigit (drop_bit 4 c AND 15), hexDigit (c AND 15)]"

definition isHighSurrogate :: "cu \<Rightarrow> bool" where
  "isHighSurrogate c \<longleftrightarrow> 0xD800 \<le> c \<and> c \<le> 0xDBFF"

definition isLowSurrogate :: "cu \<Rightarrow> bool" where
  "isLowSurrogate c \<longleftrightarrow> 0xDC00 \<le> c \<and> c \<le> 0xDFFF"

definition escapeUnit :: "cu \<Rightarrow> jsstring" where
  "escapeUnit c =
     (if c = 0x08 then backslash # js ''b''
      else if c = 0x09 then backslash # js ''t''
      else if c = 0x0A then backslash # js ''n''
      else if c = 0x0C then backslash # js ''f''
      else if c = 0x0D then backslash # js ''r''
      else if c = 0x22 then backslash # js ''\"''
      else if c = 0x5C then [backslash, backslash]
      else if c < 0x20 \<or> isHighSurrogate c \<or> isLowSurrogate c then unicodeEscape c
      else [c])"

fun quoteBody :: "jsstring \<Rightarrow> jsstring" where
  "quoteBody [] = []"
| "quoteBody [c] = escapeUnit c"
| "quoteBody (c # d # cs) =
     (if isHighSurrogate c \<and> isLowSurrogate d then c # d # quoteBody cs
      else escapeUnit c @ quoteBody (d # cs))"

definition quoteJSONString :: "jsstring \<Rightarrow> jsstring" where
  "quoteJSONString s = js ''\"'' @ quoteBody s @ js ''\"''"

fun joinWith :: "jsstring \<Rightarrow> jsstring list \<Rightarrow> jsstring" where
  "joinWith sep [] = []"
| "joinWith sep [x] = x"
| "joinWith sep (x # y # ys) = x @ sep @ joinWith sep (y # ys)"

fun JSON_stringify :: "json \<Rightarrow> jsstring" where
  "JSON_stringify (JString s) = quoteJSONString s"
| "JSON_stringify (JObject kvs) =
     js ''{'' @
     joinWith (js '','') (map (\<lambda>(k, v). quoteJSONString k @ js '':'' @ JSON_stringify v) kvs) @
     js ''}''"

text \<open>
  The hardcoded loan data. The fields \<open>loanContractName\<close> and \<open>borrowerName\<close> are the
  source's \<open>contractName\<close> and \<open>name\<close>; \<open>borrowerJson\<close> is the object
  \<open>loanData.borrower\<close> with the source's keys in the source's order.
\<close>

record contact =
  phone :: jsstring
  email :: jsstring
  address :: jsstring

record borrower =
  borrowerName :: jsstring
  contact :: contact

record loanDetails =
  loanAmount :: int
  loanType :: jsstring
  desiredTimeline :: jsstring

record loan =
  loanContractName :: jsstring
  borrower :: borrower
  loanDetails :: loanDetails

definition loanData :: loan where
  "loanData = \<lparr>
     loanContractName = js ''MortgageLoan'',
     borrower = \<lparr>
       borrowerName = js ''YJ'',
       contact = \<lparr>
         phone = js ''+1-555-123-4567'',
         email = js ''manny@example.com'',
         address = js ''123 Elm Street, Springfield, IL, 62704'' \<rparr> \<rparr>,
     loanDetails = \<lparr>
       loanAmount = 200000,
       loanType = js ''Home Loan'',
       desiredTimeline = js ''2025-06-30'' \<rparr> \<rparr>"

definition borrowerJson :: "borrower \<Rightarrow> json" where
  "borrowerJson b = JObject [
     (js ''name'', JString (borrowerName b)),
     (js ''contact'', JObject [
        (js ''phone'', JString (phone (contact b))),
        (js ''email'', JString (email (contact b))),
        (js ''address'', JString (address (contact b)))])]"

text \<open>The template literal of \<open>/generate-prompt\<close>.\<close>

definition generatePrompt :: "loan \<Rightarrow> jsstring" where
  "generatePrompt d =
     js ''\<newline>      Generate a Solidity smart contract named \"'' @ loanContractName d @
     js ''\" with:\<newline>      - Borrower details: '' @ JSON_stringify (borrowerJson (borrower d)) @
     js ''\<newline>      - Loan amount: '' @ numberToString (loanAmount (loanDetails d)) @
     js ''\<newline>      - Loan type: '' @ loanType (loanDetails d) @
     js ''\<newline>      - Timeline: '' @ desiredTimeline (loanDetails d) @
     js ''\<newline>      Include:'' @
     js ''\<newline>      - Borrower physicalAddress (mention address as physicalAddress) storage'' @
     js ''\<newline>      - Loan amount and type storage'' @
     js ''\<newline>      - Timeline validation'' @
     js ''\<newline>      - Loan status management (Pending, Approved, Rejected, Repaid)'' @
     js ''\<newline>      - Admin controls'' @
     js ''\<newline>      - SPDX-License-Identifier: MIT'' @
     js ''\<newline>      - pragma solidity ^0.8.0 (MUST HAVE)'' @
     js ''\<newline>    ''"

text \<open>The template literal of \<open>/auto-deploy\<close>.\<close>

definition autoDeployPrompt :: "loan \<Rightarrow> jsstring" where
  "autoDeployPrompt d =
     js ''\<newline>      You are a highly skilled Solidity dev.'' @
     js ''\<newline>      Generate a complete Solidity contract named \"CustomMortgageLoan\" for a loan with:'' @
     js ''\<newline>      - Borrower details: '' @ JSON_stringify (borrowerJson (borrower d)) @
     js ''\<newline>      - Loan amount: '' @ numberToString (loanAmount (loanDetails d)) @
     js ''\<newline>      - Loan type: '' @ loanType (loanDetails d) @
     js ''\<newline>      - Desired timeline: '' @ desiredTimeline (loanDetails d) @
     js ''\<newline>      '' @
     js ''\<newline>      Requirements:'' @
     js ''\<newline>      1) pragma solidity ^0.8.0'' @
     js ''\<newline>      2) Include admin, statuses (Pending, Approved, Rejected, Repaid)'' @
     js ''\<newline>      3) Provide only valid Solidity code, NO extra text, nothing else.'' @
     js ''\<newline>      4) No lines before or after the code. Just the Solidity. '' @
     js ''\<newline>      5) Do not use 'address' for physicalAddress. Use 'physicalAddress' in struct, etc.'' @
     js ''\<newline>    ''"

section \<open>The artifact writer\<close>

text \<open>
  The names and texts that \<open>/auto-deploy\<close> derives from \<open>timestamp = Date.now()\<close>, an
  integer, and from the cleaned completion. \<open>path_join\<close> is \<open>path.join\<close> on a directory
  and a name without separators.
\<close>

definition contractName :: "int \<Rightarrow> jsstring" where
  "contractName timestamp = js ''CustomMortgageLoan_'' @ numberToString timestamp"

definition path_join :: "jsstring \<Rightarrow> jsstring \<Rightarrow> jsstring" where
  "path_join dir name = dir @ js ''/'' @ name"

definition contractsDir :: "jsstring \<Rightarrow> jsstring" where
  "contractsDir dirname = path_join dirname (js ''contracts'')"

definition solFileName :: "int \<Rightarrow> jsstring" where
  "solFileName timestamp = contractName timestamp @ js ''.sol''"

definition solFilePath :: "jsstring \<Rightarrow> int \<Rightarrow> jsstring" where
  "solFilePath dirname timestamp = path_join (contractsDir dirname) (solFileName timestamp)"

text \<open>The regular expression \<^verbatim>\<open>/contract\s+CustomMortgageLoan\b/g\<close>.\<close>

definition declRe :: regex where
  "declRe =
     RSeq (RLit (js ''contract''))
       (RSeq (RPlus (RClass isSpace))
         (RSeq (RLit (js ''CustomMortgageLoan'')) RWordBoundary))"

definition updatedCode :: "int \<Rightarrow> jsstring \<Rightarrow> jsstring" where
  "updatedCode timestamp solidityCode =
     replaceAll solidityCode declRe (js ''contract '' @ contractName timestamp)"

definition migrationsDir :: "jsstring \<Rightarrow> jsstring" where
  "migrationsDir dirname = path_join dirname (js ''migrations'')"

definition migrationFileName :: "int \<Rightarrow> jsstring" where
  "migrationFileName timestamp =
     numberToString timestamp @ js ''_deploy_'' @ contractName timestamp @ js ''.js''"

definition migrationFilePath :: "jsstring \<Rightarrow> int \<Rightarrow> jsstring" where
  "migrationFilePath dirname timestamp =
     path_join (migrationsDir dirname) (migrationFileName timestamp)"

definition migrationContent :: "int \<Rightarrow> jsstring" where
  "migrationContent timestamp =
     js ''\<newline>const '' @ contractName timestamp @
     js '' = artifacts.require(\"'' @ contractName timestamp @ js ''\");\<newline>'' @
     js ''\<newline>module.exports = function (deployer) {\<newline>'' @
     js ''  deployer.deploy('' @ contractName timestamp @ js '');\<newline>'' @
     js ''};\<newline>''"

text \<open>
  The file system, as far as the handler touches it: a map from paths to directories and
  files. \<open>ensureDir\<close> is the guarded \<open>mkdirSync\<close>, \<open>writeFileSync\<close> creates or overwrites
  the file. (Both are taken to succeed; when one throws, the handler's \<open>catch\<close> answers
  500 with the error's message.)
\<close>

datatype node = Dir | File jsstring

type_synonym filesystem = "jsstring \<rightharpoonup> node"

definition existsSync :: "filesystem \<Rightarrow> jsstring \<Rightarrow> bool" where
  "existsSync fs path \<longleftrightarrow> fs path \<noteq> None"

definition ensureDir :: "jsstring \<Rightarrow> filesystem \<Rightarrow> filesystem" where
  "ensureDir dir fs = (if \<not> existsSync fs dir then fs(dir \<mapsto> Dir) else fs)"

definition writeFileSync :: "jsstring \<Rightarrow> jsstring \<Rightarrow> filesystem \<Rightarrow> filesystem" where
  "writeFileSync path content fs = fs(path \<mapsto> File content)"

text \<open>Steps (B) and (C) of \<open>/auto-deploy\<close>: the two files of one request.\<close>

definition writeArtifacts :: "jsstring \<Rightarrow> int \<Rightarrow> jsstring \<Rightarrow> filesystem \<Rightarrow> filesystem" where
  "writeArtifacts dirname timestamp solidityCode fs =
     writeFileSync (migrationFilePath dirname timestamp) (migrationContent timestamp)
       (ensureDir (migrationsDir dirname)
         (writeFileSync (solFilePath dirname timestamp) (updatedCode timestamp solidityCode)
           (ensureDir (contractsDir dirname) fs)))"

section \<open>The deploy runner\<close>

text \<open>
  How the subprocess ended. \<open>child_process.exec\<close> calls back with \<open>null\<close> as the error
  when the command exited with code 0 and with an error object otherwise, also when the
  command could not be spawned.
\<close>

datatype childExit = Exited int | SpawnFailed

definition execError :: "childExit \<Rightarrow> childExit option" where
  "execError e = (if e = Exited 0 then None else Some e)"

record response =
  status :: nat
  body :: json

text \<open>The regular expression \<^verbatim>\<open>/contract address:\s+(0x[a-fA-F0-9]+)/\<close>.\<close>

definition addressRe :: regex where
  "addressRe =
     RSeq (RLit (js ''contract address:''))
       (RSeq (RPlus (RClass isSpace))
         (RGroup 1 (RSeq (RLit (js ''0x'')) (RPlus (RClass isHexDigit)))))"

text \<open>
  \<open>match ? match[1] : null\<close>, with \<open>None\<close> for \<open>null\<close> and \<open>undefined\<close>, and the test
  \<open>!contractAddress\<close>, which also holds for the empty string.
\<close>

definition parseContractAddress :: "jsstring \<Rightarrow> jsstring option" where
  "parseContractAddress stdout =
     (case stringMatch stdout addressRe of
        None \<Rightarrow> None
      | Some (whole, caps) \<Rightarrow> map_of caps 1)"

fun falsy :: "jsstring option \<Rightarrow> bool" where
  "falsy None = True"
| "falsy (Some s) = (s = [])"

text \<open>
  The callback of \<open>exec\<close>: the lines written to the console and the response sent.
\<close>

definition execCallback :: "childExit option \<Rightarrow> jsstring \<Rightarrow> jsstring \<Rightarrow> jsstring list \<times> response" where
  "execCallback err stdout stderr =
     (if err \<noteq> None then
        ([js ''[SERVER] Deployment error: '' @ stderr],
         \<lparr>status = 500,
          body = JObject [(js ''error'', JString (js ''Failed to compile or deploy contract''))]\<rparr>)
      else
        let contractAddress = parseContractAddress stdout in
        if falsy contractAddress then
          ([js ''[SERVER] Truffle stdout:\<newline> '' @ stdout],
           \<lparr>status = 200,
            body = JObject [
              (js ''contractAddress'', JString (js ''0x0000000000000000000000000000000000000000'')),
              (js ''info'', JString (js ''Contract deployed but no address found in logs.''))]\<rparr>)
        else
          ([js ''[SERVER] Truffle stdout:\<newline> '' @ stdout],
           \<lparr>status = 200,
            body = JObject [(js ''contractAddress'', JString (the contractAddress))]\<rparr>))"

section \<open>The routes\<close>

text \<open>
  What the completion endpoint did: it failed with a message, or it returned the text of
  the first choice.
\<close>

datatype completion = ApiError jsstring | ApiText jsstring

definition generatePromptRoute :: "loan \<Rightarrow> completion \<Rightarrow> response" where
  "generatePromptRoute d c =
     (case c of
        ApiError message \<Rightarrow>
          \<lparr>status = 500, body = JObject [(js ''error'', JString message)]\<rparr>
      | ApiText content \<Rightarrow>
          \<lparr>status = 200,
           body = JObject [
             (js ''prompt'', JString (generatePrompt d)),
             (js ''generatedCode'', JString (stripMarkdownFences (trim content)))]\<rparr>)"

text \<open>
  \<open>/auto-deploy\<close>: the completion, the cleaning, the two files, the subprocess and its
  callback. The result is the file system afterwards and the response.
\<close>

definition autoDeployRoute ::
  "jsstring \<Rightarrow> completion \<Rightarrow> int \<Rightarrow> childExit \<Rightarrow> jsstring \<Rightarrow> jsstring \<Rightarrow>
     filesystem \<Rightarrow> filesystem \<times> response" where
  "autoDeployRoute dirname c timestamp ended stdout stderr fs =
     (case c of
        ApiError message \<Rightarrow>
          (fs, \<lparr>status = 500, body = JObject [(js ''error'', JString message)]\<rparr>)
      | ApiText content \<Rightarrow>
          let solidityCode = stripMarkdownFences (trim content) in
          (writeArtifacts dirname timestamp solidityCode fs,
           snd (execCallback (execError ended) stdout stderr)))"


section \<open>Notions used in the proofs\<close>

text \<open>The code unit before the position reached after reading \<open>s\<close>.\<close>

definition lastOpt :: "cu option \<Rightarrow> jsstring \<Rightarrow> cu option" where
  "lastOpt p s = (if s = [] then p else Some (last s))"

text \<open>A matcher state whose remaining input starts with a code unit of the class \<open>P\<close>.\<close>

definition startsWith :: "(cu \<Rightarrow> bool) \<Rightarrow> mstate \<Rightarrow> bool" where
  "startsWith P st \<longleftrightarrow> (case fst (snd st) of [] \<Rightarrow> False | y # ys \<Rightarrow> P y)"

section \<open>The matcher on literals and character classes\<close>


lemma matcher_RLit:
  "matcher (RLit s) (p, xs, caps) =
     (if prefix s xs then [(lastOpt p s, drop (length s) xs, caps)] else [])"
proof (induction s arbitrary: p xs)
  case Nil
  then show ?case by (simp add: lastOpt_def)
next
  case (Cons c cs)
  show ?case
  proof (cases xs)
    case Nil
    then show ?thesis by simp
  next
    case (Cons x xs')
    then show ?thesis using Cons.IH [of "Some x" xs'] by (auto simp: lastOpt_def)
  qed
qed

lemma clearCaps_Nil [simp]: "clearCaps [] st = st"
  by (cases st) (simp add: case_prod_unfold)

lemma matcher_RStar_RClass_unfold:
  "matcher (RStar (RClass P)) (p, xs, caps) =
     (case xs of [] \<Rightarrow> [] | x # xs' \<Rightarrow>
        if P x then matcher (RStar (RClass P)) (Some x, xs', caps) else []) @ [(p, xs, caps)]"
  by (cases xs) simp_all


lemma matcher_RStar_RClass:
  "\<exists>others. matcher (RStar (RClass P)) (p, xs, caps) =
       (lastOpt p (takeWhile P xs), dropWhile P xs, caps) # others \<and>
     (\<forall>st \<in> set others. startsWith P st)"
proof (induction xs arbitrary: p)
  case Nil
  show ?case by (simp add: lastOpt_def)
next
  case (Cons x xs)
  show ?case
  proof (cases "P x")
    case True
    from Cons.IH [of "Some x"] obtain others where
      o: "matcher (RStar (RClass P)) (Some x, xs, caps) =
            (lastOpt (Some x) (takeWhile P xs), dropWhile P xs, caps) # others"
         "\<forall>st \<in> set others. startsWith P st"
      by blast
    have "matcher (RStar (RClass P)) (p, x # xs, caps) =
            (lastOpt p (takeWhile P (x # xs)), dropWhile P (x # xs), caps) # (others @ [(p, x # xs, caps)])"
      using True o(1) by (subst matcher_RStar_RClass_unfold) (simp add: lastOpt_def)
    moreover have "\<forall>st \<in> set (others @ [(p, x # xs, caps)]). startsWith P st"
      using o(2) True by (simp add: startsWith_def)
    ultimately show ?thesis by blast
  next
    case False
    then show ?thesis
      by (subst matcher_RStar_RClass_unfold) (simp add: lastOpt_def)
  qed
qed

lemma matcher_RPlus_RClass:
  "matcher (RPlus (RClass P)) (p, xs, caps) =
     (case xs of [] \<Rightarrow> [] | x # xs' \<Rightarrow>
        if P x then matcher (RStar (RClass P)) (Some x, xs', caps) else [])"
  by (cases xs) (simp_all add: RPlus_def)

lemma matcher_RPlus_RClass_hit:
  assumes "xs \<noteq> []" "P (hd xs)"
  shows "\<exists>others. matcher (RPlus (RClass P)) (p, xs, caps) =
       (Some (last (takeWhile P xs)), dropWhile P xs, caps) # others \<and>
     (\<forall>st \<in> set others. startsWith P st)"
proof -
  from assms obtain x xs' where xs: "xs = x # xs'" "P x" by (cases xs) auto
  from matcher_RStar_RClass [of P "Some x" xs' caps] obtain others where
    o: "matcher (RStar (RClass P)) (Some x, xs', caps) =
            (lastOpt (Some x) (takeWhile P xs'), dropWhile P xs', caps) # others"
       "\<forall>st \<in> set others. startsWith P st"
    by blast
  have "matcher (RPlus (RClass P)) (p, xs, caps) =
       (Some (last (takeWhile P xs)), dropWhile P xs, caps) # others"
    using xs o(1) by (simp add: matcher_RPlus_RClass lastOpt_def)
  with o(2) show ?thesis by blast
qed

lemma matcher_RPlus_RClass_miss:
  "xs = [] \<or> \<not> P (hd xs) \<Longrightarrow> matcher (RPlus (RClass P)) (p, xs, caps) = []"
  by (cases xs) (auto simp: matcher_RPlus_RClass)


lemma matchHere_fenceOpenRe_miss:
  "\<not> prefix fence xs \<Longrightarrow> matchHere fenceOpenRe p xs = None"
  by (simp add: matchHere_def fenceOpenRe_def matcher_RLit)

lemma length_fence [simp]: "length fence = 3"
  by (simp add: fence_def)

lemma matchHere_fenceOpenRe_hit:
  assumes "prefix fence xs"
  shows "\<exists>q c. matchHere fenceOpenRe p xs = Some (q, dropWhile isWord (drop 3 xs), c)"
proof -
  define ys where "ys = drop 3 xs"
  define st1 :: mstate where "st1 = (lastOpt p fence, ys, [])"
  have m: "matcher fenceOpenRe (p, xs, []) =
             filter (progress st1) (matcher (RGroup 1 (RPlus (RClass isWord))) st1) @ [st1]"
    using assms by (simp add: fenceOpenRe_def matcher_RLit ys_def st1_def)
  show ?thesis
  proof (cases "ys \<noteq> [] \<and> isWord (hd ys)")
    case True
    then obtain others where
      o: "matcher (RPlus (RClass isWord)) (lastOpt p fence, ys, []) =
            (Some (last (takeWhile isWord ys)), dropWhile isWord ys, []) # others"
      using matcher_RPlus_RClass_hit [of ys isWord "lastOpt p fence" "[]"] by blast
    from True have "length (dropWhile isWord ys) < length ys"
      by (cases ys) (auto intro: le_imp_less_Suc length_dropWhile_le)
    then have "\<exists>q c rest. matcher fenceOpenRe (p, xs, []) = (q, dropWhile isWord ys, c) # rest"
      by (simp add: m st1_def o)
    then show ?thesis by (auto simp: matchHere_def ys_def)
  next
    case False
    then have "matcher (RPlus (RClass isWord)) (lastOpt p fence, ys, []) = []"
      by (intro matcher_RPlus_RClass_miss) auto
    moreover from False have "dropWhile isWord ys = ys"
      by (cases ys) auto
    ultimately show ?thesis
      by (simp add: matchHere_def m st1_def ys_def)
  qed
qed

lemma matchHere_fenceRe:
  "matchHere fenceRe p xs =
     (if prefix fence xs then Some (lastOpt p fence, drop 3 xs, []) else None)"
  by (simp add: matchHere_def fenceRe_def matcher_RLit)

lemma fence_not_Nil [simp]: "fence \<noteq> []"
  by (simp add: fence_def)

declare replaceFrom.simps [simp del]

lemma replaceOpen_Nil [simp]: "replaceFrom fenceOpenRe [] p [] = []"
  by (simp add: replaceFrom.simps split: option.split)

lemma replaceOpen_miss:
  "\<not> prefix fence (x # xs) \<Longrightarrow>
     replaceFrom fenceOpenRe [] p (x # xs) = x # replaceFrom fenceOpenRe [] (Some x) xs"
  by (simp add: replaceFrom.simps matchHere_fenceOpenRe_miss)

lemma replaceOpen_hit:
  assumes "prefix fence xs"
  shows "\<exists>q. replaceFrom fenceOpenRe [] p xs =
               replaceFrom fenceOpenRe [] q (dropWhile isWord (drop 3 xs))"
proof -
  from assms obtain x xs' where xs: "xs = x # xs'" by (cases xs) (auto simp: fence_def)
  from matchHere_fenceOpenRe_hit [OF assms, of p] obtain q c where
    m: "matchHere fenceOpenRe p xs = Some (q, dropWhile isWord (drop 3 xs), c)" by blast
  have "length (dropWhile isWord (drop 3 xs)) \<le> length (drop 3 xs)"
    by (rule length_dropWhile_le)
  then have "length (dropWhile isWord (drop 3 xs)) < Suc (length xs')"
    using xs by simp
  then show ?thesis using m xs by (auto simp: replaceFrom.simps)
qed

lemma replaceFence_miss:
  "\<not> prefix fence (x # xs) \<Longrightarrow>
     replaceFrom fenceRe [] p (x # xs) = x # replaceFrom fenceRe [] (Some x) xs"
  by (simp add: replaceFrom.simps matchHere_fenceRe)

lemma replaceFence_Nil [simp]: "replaceFrom fenceRe [] p [] = []"
  by (simp add: replaceFrom.simps split: option.split)

text \<open>What is left of the text has no fence in it.\<close>

lemma replaceOpen_no_prefix:
  assumes "\<not> prefix fence xs"
  shows "\<not> prefix fence (replaceFrom fenceOpenRe [] p xs)"
proof (cases xs)
  case Nil
  then show ?thesis by simp
next
  case xs: (Cons a as)
  show ?thesis
  proof (cases "a = backtick")
    case False
    then show ?thesis using assms xs by (simp add: replaceOpen_miss; simp add: fence_def)
  next
    case a: True
    show ?thesis
    proof (cases as)
      case Nil
      then show ?thesis using xs a by (simp add: replaceOpen_miss fence_def)
    next
      case as: (Cons b bs)
      have nb: "\<not> prefix fence (b # bs)"
        using assms xs a as by (cases bs) (auto simp: fence_def)
      show ?thesis
      proof (cases "b = backtick")
        case False
        then show ?thesis using assms xs as nb
          by (simp add: replaceOpen_miss; simp add: fence_def)
      next
        case b: True
        show ?thesis
        proof (cases bs)
          case Nil
          then show ?thesis using assms xs as nb
            by (simp add: replaceOpen_miss; simp add: fence_def)
        next
          case bs: (Cons c cs)
          have c: "c \<noteq> backtick" using assms xs a as b bs by (auto simp: fence_def)
          then have nc: "\<not> prefix fence (c # cs)" by (simp add: fence_def)
          show ?thesis using assms xs as bs nb nc c
            by (simp add: replaceOpen_miss; simp add: fence_def)
        qed
      qed
    qed
  qed
qed

lemma replaceOpen_no_fence: "\<not> sublist fence (replaceFrom fenceOpenRe [] p xs)"
proof (induction "length xs" arbitrary: p xs rule: less_induct)
  case less
  show ?case
  proof (cases "prefix fence xs")
    case True
    from replaceOpen_hit [OF True, of p] obtain q where
      q: "replaceFrom fenceOpenRe [] p xs =
            replaceFrom fenceOpenRe [] q (dropWhile isWord (drop 3 xs))" by blast
    have "length (dropWhile isWord (drop 3 xs)) \<le> length (drop 3 xs)"
      by (rule length_dropWhile_le)
    moreover from True have "xs \<noteq> []" by (auto simp: fence_def)
    ultimately have "length (dropWhile isWord (drop 3 xs)) < length xs"
      by (cases xs) auto
    from less [OF this] q show ?thesis by simp
  next
    case False
    show ?thesis
    proof (cases xs)
      case Nil
      then show ?thesis by (simp add: fence_def)
    next
      case (Cons a as)
      have "\<not> prefix fence (replaceFrom fenceOpenRe [] p xs)"
        using False by (rule replaceOpen_no_prefix)
      moreover have "\<not> sublist fence (replaceFrom fenceOpenRe [] (Some a) as)"
        using less [of as "Some a"] Cons by simp
      ultimately show ?thesis using False Cons
        by (simp add: replaceOpen_miss sublist_Cons_right)
    qed
  qed
qed

lemma replaceOpen_id: "\<not> sublist fence xs \<Longrightarrow> replaceFrom fenceOpenRe [] p xs = xs"
proof (induction xs arbitrary: p)
  case Nil
  show ?case by simp
next
  case (Cons x xs)
  then have "\<not> prefix fence (x # xs)" "\<not> sublist fence xs"
    by (auto simp: sublist_Cons_right)
  with Cons.IH show ?case by (simp add: replaceOpen_miss)
qed

lemma replaceFence_id: "\<not> sublist fence xs \<Longrightarrow> replaceFrom fenceRe [] p xs = xs"
proof (induction xs arbitrary: p)
  case Nil
  show ?case by simp
next
  case (Cons x xs)
  then have "\<not> prefix fence (x # xs)" "\<not> sublist fence xs"
    by (auto simp: sublist_Cons_right)
  with Cons.IH show ?case by (simp add: replaceFence_miss)
qed

lemma sublist_trim: "sublist (trim s) s"
proof -
  have "prefix (rev (dropWhile isSpace (rev (dropWhile isSpace s)))) (dropWhile isSpace s)"
    by (metis prefixI rev_append rev_rev_ident takeWhile_dropWhile_id)
  moreover have "suffix (dropWhile isSpace s) s"
    by (rule suffix_dropWhile)
  ultimately show ?thesis
    unfolding trim_def
    by (meson prefix_imp_sublist suffix_imp_sublist sublist_order.order_trans)
qed

lemma trim_fixed:
  assumes "s = [] \<or> (\<not> isSpace (hd s) \<and> \<not> isSpace (last s))"
  shows "trim s = s"
proof (cases s)
  case Nil
  then show ?thesis by (simp add: trim_def)
next
  case (Cons a as)
  with assms have a: "\<not> isSpace (hd s)" "\<not> isSpace (last s)" "s \<noteq> []" by auto
  then have "\<not> isSpace (hd (rev s))" by (simp add: hd_rev)
  then have "dropWhile isSpace (rev s) = rev s"
    using a(3) by (cases "rev s") simp_all
  moreover have "dropWhile isSpace s = s"
    using a Cons by simp
  ultimately show ?thesis by (simp add: trim_def)
qed

lemma trim_ends: "trim s = [] \<or> (\<not> isSpace (hd (trim s)) \<and> \<not> isSpace (last (trim s)))"
proof (cases "trim s = []")
  case True
  then show ?thesis by simp
next
  case False
  define t where "t = dropWhile isSpace s"
  define u where "u = dropWhile isSpace (rev t)"
  have tr: "trim s = rev u" by (simp add: trim_def t_def u_def)
  with False have u: "u \<noteq> []" by simp
  then have "\<not> isSpace (hd u)" unfolding u_def by (metis hd_dropWhile)
  then have l: "\<not> isSpace (last (trim s))" using u tr by (simp add: last_rev)
  have "rev t = takeWhile isSpace (rev t) @ u" by (simp add: u_def)
  then have "t = rev u @ rev (takeWhile isSpace (rev t))"
    by (metis rev_append rev_rev_ident)
  then have "hd t = hd (rev u)" "t \<noteq> []" using u by (metis hd_append2 rev_is_Nil_conv, auto)
  moreover have "\<not> isSpace (hd t)" using \<open>t \<noteq> []\<close> unfolding t_def by (metis hd_dropWhile)
  ultimately show ?thesis using l tr by simp
qed

lemma trim_idem: "trim (trim s) = trim s"
  using trim_ends [of s] by (rule trim_fixed)

lemma stripMarkdownFences_no_fence: "\<not> sublist fence (stripMarkdownFences x)"
proof -
  let ?a = "replaceAll x fenceOpenRe []"
  have a: "\<not> sublist fence ?a" by (simp add: replaceAll_def replaceOpen_no_fence)
  then have "replaceAll ?a fenceRe [] = ?a" by (simp add: replaceAll_def replaceFence_id)
  then have "stripMarkdownFences x = trim ?a" by (simp add: stripMarkdownFences_def)
  moreover have "\<not> sublist fence (trim ?a)"
    using a sublist_trim [of ?a] by (meson sublist_order.order_trans)
  ultimately show ?thesis by simp
qed

lemma stripMarkdownFences_fixed:
  assumes "\<not> sublist fence y" "trim y = y"
  shows "stripMarkdownFences y = y"
  using assms by (simp add: stripMarkdownFences_def replaceAll_def replaceOpen_id replaceFence_id)

lemma stripMarkdownFences_idem:
  "stripMarkdownFences (stripMarkdownFences x) = stripMarkdownFences x"
proof (rule stripMarkdownFences_fixed)
  show "\<not> sublist fence (stripMarkdownFences x)" by (rule stripMarkdownFences_no_fence)
  show "trim (stripMarkdownFences x) = stripMarkdownFences x"
    by (simp add: stripMarkdownFences_def trim_idem)
qed

section \<open>The claims about the fence stripper\<close>

text \<open>
  Claim C2. The fence stripper is idempotent: for every input string \<open>x\<close>, stripping the
  stripped text gives the stripped text again.
\<close>

theorem stripMarkdownFences_idempotent:
  "stripMarkdownFences (stripMarkdownFences x) = stripMarkdownFences x"
  by (rule stripMarkdownFences_idem)

theorem stripMarkdownFences_idempotent_witness:
  "stripMarkdownFences (stripMarkdownFences (fence @ js ''solidity\<newline>contract A {}\<newline>'' @ fence)) =
     js ''contract A {}''"
proof -
  have "stripMarkdownFences (fence @ js ''solidity\<newline>contract A {}\<newline>'' @ fence) = js ''contract A {}''"
    by code_simp
  then show ?thesis
    using stripMarkdownFences_idempotent [of "fence @ js ''solidity\<newline>contract A {}\<newline>'' @ fence"]
    by simp
qed

text \<open>
  Claim C7. For every input string, the output of the fence stripper contains no three
  consecutive backticks: it cannot be split into a text, three backticks and a text.
\<close>

theorem stripMarkdownFences_no_triple_backtick:
  "\<not> (\<exists>before after. stripMarkdownFences x = before @ [backtick, backtick, backtick] @ after)"
  using stripMarkdownFences_no_fence [of x] by (simp add: sublist_def fence_def)

theorem stripMarkdownFences_no_triple_backtick_witness:
  "stripMarkdownFences ([backtick, backtick] @ fence @ js ''js'' @ [backtick] @ fence @ fence) =
     [backtick, backtick] @ js ''js'' @ [backtick] \<and>
   \<not> (\<exists>before after.
        stripMarkdownFences ([backtick, backtick] @ fence @ js ''js'' @ [backtick] @ fence @ fence) =
          before @ [backtick, backtick, backtick] @ after)"
proof
  show "stripMarkdownFences ([backtick, backtick] @ fence @ js ''js'' @ [backtick] @ fence @ fence) =
     [backtick, backtick] @ js ''js'' @ [backtick]"
    by code_simp
  show "\<not> (\<exists>before after.
        stripMarkdownFences ([backtick, backtick] @ fence @ js ''js'' @ [backtick] @ fence @ fence) =
          before @ [backtick, backtick, backtick] @ after)"
    by (rule stripMarkdownFences_no_triple_backtick)
qed

end
